theory Spec2Isabelle
  imports Main "HOL-Library.Multiset" "HOL-Library.Char_ord" "HOL-Library.List_Lexorder"
begin

section \<open>The notes table\<close>

text \<open>
  The database module keeps one table, created by \<^verbatim>\<open>initializeDatabase\<close>:
  \<^verbatim>\<open>
  CREATE TABLE IF NOT EXISTS notes (
    id INTEGER PRIMARY KEY AUTOINCREMENT,
    title TEXT NOT NULL,
    content TEXT,
    created_at DATETIME DEFAULT CURRENT_TIMESTAMP,
    updated_at DATETIME DEFAULT CURRENT_TIMESTAMP,
    synced_at DATETIME,
    sync_status TEXT DEFAULT 'pending' -- 'pending', 'synced', 'error'
  )
  \<close>
  A row is a record with one field per column. The nullable columns \<open>content\<close> and
  \<open>synced_at\<close> are options (\<open>None\<close> is SQL NULL). The three status literals the module
  writes are the constructors of \<open>sync_status\<close>. A timestamp is the number of seconds the
  engine's \<^verbatim>\<open>CURRENT_TIMESTAMP\<close> stands for; the engine's clock is not part of the
  program, so every statement that reads it takes the current time as an argument.
  Row ids are unbounded integers (the engine's 64-bit limit is not modelled), and a text is
  the list of its bytes, in the UTF-8 encoding in which the engine holds it.
\<close>

datatype sync_status = Pending | Synced | Error

type_synonym timestamp = nat

record note_row =
  note_id :: int
  title :: string
  content :: "string option"
  created_at :: timestamp
  updated_at :: timestamp
  synced_at :: "timestamp option"
  sync_status :: sync_status

text \<open>
  The state of the module is the table, in insertion order, together with the counter
  that \<^verbatim>\<open>AUTOINCREMENT\<close> keeps (the largest row id ever handed out), so that the id of
  a deleted row is never used again.
\<close>

record database =
  rows :: "note_row list"
  seq :: int

definition empty_database :: database where
  "empty_database = \<lparr>rows = [], seq = 0\<rparr>"

text \<open>The primary key: no two rows share an id.\<close>

definition wf_db :: "database \<Rightarrow> bool" where
  "wf_db db = distinct (map note_id (rows db))"

text \<open>
  What the engine raises in the statements of this module: the \<^verbatim>\<open>NOT NULL\<close> constraint
  on the title. Faults of the storage itself (a full disk, a locked file) are outside the
  model.
\<close>

datatype db_error = NotNullConstraint

section \<open>Statements\<close>

text \<open>
  \<^verbatim>\<open>AUTOINCREMENT\<close>: the new id is one more than the largest id the table has ever held.
\<close>

definition next_rowid :: "database \<Rightarrow> int" where
  "next_rowid db = fold max (map note_id (rows db)) (max (seq db) 0) + 1"

text \<open>
  \<^verbatim>\<open>INSERT INTO notes (title, content, sync_status) VALUES (?, ?, 'pending')\<close>.
  A parameter is a text or null (\<open>None\<close>). A null title violates \<^verbatim>\<open>NOT NULL\<close>
  and the statement raises. Both timestamp defaults are evaluated in the same statement,
  \<open>synced_at\<close> has no default. The result is the new state and \<^verbatim>\<open>lastInsertRowid\<close>.
\<close>

definition insert_run ::
  "database \<Rightarrow> timestamp \<Rightarrow> string option \<Rightarrow> string option \<Rightarrow> db_error + (database \<times> int)" where
  "insert_run db now t c =
     (case t of
        None \<Rightarrow> Inl NotNullConstraint
      | Some ttl \<Rightarrow>
          (let i = next_rowid db in
           Inr (db\<lparr>rows := rows db @
                  [\<lparr>note_id = i, title = ttl, content = c, created_at = now,
                    updated_at = now, synced_at = None, sync_status = Pending\<rparr>],
                  seq := i\<rparr>, i)))"

text \<open>\<^verbatim>\<open>SELECT * FROM notes WHERE id = ?\<close>, then \<^verbatim>\<open>stmt.get(id) || null\<close>.\<close>

definition getNoteById :: "database \<Rightarrow> int \<Rightarrow> note_row option" where
  "getNoteById db i = find (\<lambda>n. note_id n = i) (rows db)"

text \<open>
  \<^verbatim>\<open>addNote\<close> runs the insert and reads the row back by \<^verbatim>\<open>lastInsertRowid\<close>. (A
  caller that leaves the content out gets the default, the empty text \<open>Some []\<close>.)
\<close>

definition addNote ::
  "database \<Rightarrow> timestamp \<Rightarrow> string option \<Rightarrow> string option \<Rightarrow> db_error + (database \<times> note_row option)" where
  "addNote db now t c =
     (case insert_run db now t c of
        Inl e \<Rightarrow> Inl e
      | Inr (db', i) \<Rightarrow> Inr (db', getNoteById db' i))"

text \<open>
  \<^verbatim>\<open>UPDATE notes SET title = ?, content = ?, updated_at = CURRENT_TIMESTAMP,
  sync_status = 'pending' WHERE id = ?\<close>. The result carries \<^verbatim>\<open>changes\<close>, the number
  of rows matched. The \<^verbatim>\<open>NOT NULL\<close> constraint is checked on the rows that are
  written, so a null title raises only when a row matches.
\<close>

definition update_run ::
  "database \<Rightarrow> timestamp \<Rightarrow> string option \<Rightarrow> string option \<Rightarrow> int \<Rightarrow> db_error + (database \<times> nat)" where
  "update_run db now t c i =
     (let changes = length (filter (\<lambda>n. note_id n = i) (rows db)) in
      if changes = 0 then Inr (db, 0)
      else (case t of
              None \<Rightarrow> Inl NotNullConstraint
            | Some ttl \<Rightarrow>
                Inr (db\<lparr>rows := map (\<lambda>n. if note_id n = i
                                          then n\<lparr>title := ttl, content := c,
                                                 updated_at := now, sync_status := Pending\<rparr>
                                          else n) (rows db)\<rparr>, changes)))"

definition updateNote ::
  "database \<Rightarrow> timestamp \<Rightarrow> int \<Rightarrow> string option \<Rightarrow> string option \<Rightarrow> db_error + (database \<times> note_row option)" where
  "updateNote db now i t c =
     (case update_run db now t c i of
        Inl e \<Rightarrow> Inl e
      | Inr (db', changes) \<Rightarrow>
          if changes = 0 then Inr (db', None) else Inr (db', getNoteById db' i))"

text \<open>\<^verbatim>\<open>DELETE FROM notes WHERE id = ?\<close>; the result is \<^verbatim>\<open>result.changes > 0\<close>.\<close>

definition deleteNote :: "database \<Rightarrow> int \<Rightarrow> database \<times> bool" where
  "deleteNote db i =
     (let changes = length (filter (\<lambda>n. note_id n = i) (rows db)) in
      (db\<lparr>rows := filter (\<lambda>n. note_id n \<noteq> i) (rows db)\<rparr>, changes > 0))"

text \<open>\<^verbatim>\<open>getStats\<close>: three \<^verbatim>\<open>COUNT(*)\<close> queries.\<close>

record stats =
  total :: nat
  pending :: nat
  synced :: nat

definition getStats :: "database \<Rightarrow> stats" where
  "getStats db =
     \<lparr>total = length (rows db),
      pending = length (filter (\<lambda>n. sync_status n = Pending) (rows db)),
      synced = length (filter (\<lambda>n. sync_status n = Synced) (rows db))\<rparr>"

section \<open>Listing\<close>

text \<open>
  \<^verbatim>\<open>ORDER BY col ASC|DESC\<close>. SQL fixes the order of the keys, not the order of rows
  with equal keys; the model sorts stably and reverses for \<^verbatim>\<open>DESC\<close>, and the theorems
  below only speak of the keys.
\<close>

definition order_by :: "(note_row \<Rightarrow> 'k::linorder) \<Rightarrow> bool \<Rightarrow> note_row list \<Rightarrow> note_row list" where
  "order_by key asc ns = (if asc then sort_key key ns else rev (sort_key key ns))"

text \<open>\<^verbatim>\<open>String.prototype.toUpperCase\<close> on one-byte characters.\<close>

definition upper_char :: "char \<Rightarrow> char" where
  "upper_char c =
     (case map_of (zip ''abcdefghijklmnopqrstuvwxyz'' ''ABCDEFGHIJKLMNOPQRSTUVWXYZ'') c of
        None \<Rightarrow> c
      | Some u \<Rightarrow> u)"

definition toUpperCase :: "string \<Rightarrow> string" where
  "toUpperCase s = map upper_char s"

definition allowedColumns :: "string list" where
  "allowedColumns = [''id'', ''title'', ''created_at'', ''updated_at'']"

text \<open>
  \<^verbatim>\<open>getNotes(sortBy, order)\<close>: the column and the direction are spliced into
  \<^verbatim>\<open>SELECT * FROM notes ORDER BY ${sortColumn} ${sortOrder}\<close> after normalisation
  (left out, they are \<^verbatim>\<open>created_at\<close> and \<^verbatim>\<open>DESC\<close>). Text columns compare bytewise
  (the \<^verbatim>\<open>BINARY\<close> collation).
\<close>

definition getNotes :: "database \<Rightarrow> string \<Rightarrow> string \<Rightarrow> note_row list" where
  "getNotes db sortBy order =
     (let sortColumn = (if sortBy \<in> set allowedColumns then sortBy else ''created_at'');
          asc = (toUpperCase order = ''ASC'')
      in if sortColumn = ''id'' then order_by note_id asc (rows db)
         else if sortColumn = ''title'' then order_by title asc (rows db)
         else if sortColumn = ''updated_at'' then order_by updated_at asc (rows db)
         else order_by created_at asc (rows db))"

section \<open>Bulk insert\<close>

text \<open>
  An element of the array given to \<^verbatim>\<open>addNotesBulk\<close>: an object whose \<^verbatim>\<open>title\<close> and
  \<^verbatim>\<open>content\<close> are texts or missing.
\<close>

record note_input =
  title_in :: "string option"
  content_in :: "string option"

text \<open>\<^verbatim>\<open>note.content || ''\<close>: a missing or empty content is the empty text.\<close>

definition content_or_empty :: "string option \<Rightarrow> string" where
  "content_or_empty c = (case c of None \<Rightarrow> [] | Some s \<Rightarrow> s)"

text \<open>
  The body of the transaction function: one insert per element, collecting
  \<^verbatim>\<open>lastInsertRowid\<close>. Every insert reads the clock on its own; \<open>clock k\<close> is the time of
  the \<open>k\<close>-th statement of the batch. The first insert that raises ends the loop.
\<close>

fun insertMany_loop ::
  "database \<Rightarrow> (nat \<Rightarrow> timestamp) \<Rightarrow> nat \<Rightarrow> note_input list \<Rightarrow> int list
     \<Rightarrow> db_error + (database \<times> int list)" where
  "insertMany_loop db clock k [] ids = Inr (db, ids)"
| "insertMany_loop db clock k (n # ns) ids =
     (case insert_run db (clock k) (title_in n) (Some (content_or_empty (content_in n))) of
        Inl e \<Rightarrow> Inl e
      | Inr (db', i) \<Rightarrow> insertMany_loop db' clock (Suc k) ns (ids @ [i]))"

text \<open>
  \<^verbatim>\<open>db.transaction(fn)\<close>: runs the function between \<^verbatim>\<open>BEGIN\<close> and \<^verbatim>\<open>COMMIT\<close>; when
  the function raises, the transaction is rolled back (the table and the
  \<^verbatim>\<open>AUTOINCREMENT\<close> counter are as before) and the exception is raised again.
\<close>

definition transaction ::
  "(database \<Rightarrow> db_error + (database \<times> 'a)) \<Rightarrow> database \<Rightarrow> database \<times> (db_error + 'a)" where
  "transaction f db =
     (case f db of
        Inl e \<Rightarrow> (db, Inl e)
      | Inr (db', r) \<Rightarrow> (db', Inr r))"

definition addNotesBulk ::
  "database \<Rightarrow> (nat \<Rightarrow> timestamp) \<Rightarrow> note_input list \<Rightarrow> database \<times> (db_error + int list)" where
  "addNotesBulk db clock notes = transaction (\<lambda>d. insertMany_loop d clock 0 notes []) db"

section \<open>Sync status\<close>

text \<open>
  \<^verbatim>\<open>SELECT * FROM notes WHERE sync_status IN ('pending', 'error') ORDER BY created_at ASC\<close>.
\<close>

definition getNotesToSync :: "database \<Rightarrow> note_row list" where
  "getNotesToSync db =
     order_by created_at True
       (filter (\<lambda>n. sync_status n = Pending \<or> sync_status n = Error) (rows db))"

text \<open>
  \<^verbatim>\<open>UPDATE notes SET sync_status = 'synced', synced_at = CURRENT_TIMESTAMP
  WHERE id IN (?,...,?)\<close>, not run for an empty id list. The result is \<^verbatim>\<open>changes\<close>.
\<close>

definition markNotesAsSynced :: "database \<Rightarrow> timestamp \<Rightarrow> int list \<Rightarrow> database \<times> nat" where
  "markNotesAsSynced db now ids =
     (if length ids = 0 then (db, 0)
      else (db\<lparr>rows := map (\<lambda>n. if note_id n \<in> set ids
                                 then n\<lparr>sync_status := Synced, synced_at := Some now\<rparr>
                                 else n) (rows db)\<rparr>,
            length (filter (\<lambda>n. note_id n \<in> set ids) (rows db))))"

text \<open>\<^verbatim>\<open>UPDATE notes SET sync_status = 'error' WHERE id IN (?,...,?)\<close>, with the same guard.\<close>

definition markNotesSyncError :: "database \<Rightarrow> int list \<Rightarrow> database \<times> nat" where
  "markNotesSyncError db ids =
     (if length ids = 0 then (db, 0)
      else (db\<lparr>rows := map (\<lambda>n. if note_id n \<in> set ids
                                 then n\<lparr>sync_status := Error\<rparr>
                                 else n) (rows db)\<rparr>,
            length (filter (\<lambda>n. note_id n \<in> set ids) (rows db))))"

section \<open>The sync cycle\<close>

text \<open>\<^verbatim>\<open>String.prototype.includes\<close>: the argument occurs as a contiguous piece.\<close>

fun starts_with :: "string \<Rightarrow> string \<Rightarrow> bool" where
  "starts_with s [] = True"
| "starts_with [] (p # ps) = False"
| "starts_with (c # cs) (p # ps) = (c = p \<and> starts_with cs ps)"

fun includes_str :: "string \<Rightarrow> string \<Rightarrow> bool" where
  "includes_str [] sub = (sub = [])"
| "includes_str (c # cs) sub = (starts_with (c # cs) sub \<or> includes_str cs sub)"

text \<open>A number in a template literal: its decimal digits.\<close>

fun show_nat :: "nat \<Rightarrow> string" where
  "show_nat n =
     (if n < 10 then [''0123456789'' ! n]
      else show_nat (n div 10) @ [''0123456789'' ! (n mod 10)])"

text \<open>
  What the cycle sends: each note without its sync columns
  (id, title, content, created_at, updated_at).
\<close>

type_synonym sync_note = "int \<times> string \<times> string option \<times> timestamp \<times> timestamp"

definition syncData :: "note_row list \<Rightarrow> sync_note list" where
  "syncData ns = map (\<lambda>n. (note_id n, title n, content n, created_at n, updated_at n)) ns"

text \<open>
  The remote call is outside the program. \<^verbatim>\<open>fetch\<close> either rejects with an error that
  has a message (the transport could not complete the request), or resolves to a
  response. \<^verbatim>\<open>response.json()\<close> either raises with a message (the body is not the
  expected JSON object) or gives the two id lists, each of which may be missing.
\<close>

datatype json_result =
  JsonThrows string
| JsonValue (syncedIds: "int list option") (failedIds: "int list option")

record response =
  ok :: bool
  status :: nat
  statusText :: string
  json :: json_result

datatype fetch_outcome = Rejected string | Resolved response

type_synonym fetch = "string \<Rightarrow> sync_note list \<Rightarrow> fetch_outcome"

text \<open>
  The object the cycle returns, with its fields \<^verbatim>\<open>success\<close>, \<^verbatim>\<open>synced\<close>, \<^verbatim>\<open>failed\<close>,
  \<^verbatim>\<open>error\<close> and \<^verbatim>\<open>message\<close>; \<open>r_failed\<close> and \<open>r_error\<close> are absent on some paths.
\<close>

record sync_result =
  r_success :: bool
  r_synced :: nat
  r_failed :: "nat option"
  r_error :: "string option"
  r_message :: string

definition offline_result :: sync_result where
  "offline_result =
     \<lparr>r_success = False, r_synced = 0, r_failed = None,
      r_error = Some ''Network error: App appears to be offline'',
      r_message = ''Cannot sync while offline. Changes will be synced when connection is restored.''\<rparr>"

text \<open>The \<^verbatim>\<open>catch\<close> block, given \<^verbatim>\<open>error.message\<close>.\<close>

definition sync_catch :: "string \<Rightarrow> sync_result" where
  "sync_catch msg =
     (if includes_str msg ''fetch'' \<or> includes_str msg ''network'' then offline_result
      else \<lparr>r_success = False, r_synced = 0, r_failed = None, r_error = Some msg,
             r_message = ''Sync failed. Please try again later.''\<rparr>)"

text \<open>\<^verbatim>\<open>result.syncedIds?.length || 0\<close>.\<close>

definition ids_length :: "int list option \<Rightarrow> nat" where
  "ids_length ids = (case ids of None \<Rightarrow> 0 | Some xs \<Rightarrow> length xs)"

text \<open>
  One cycle: collect the notes to sync, return at once when there are none, send them,
  and on a successful response mark the accepted ids as synced and the rejected ids as
  failed. Everything that raises inside the \<^verbatim>\<open>try\<close> block is turned into a result by
  the \<^verbatim>\<open>catch\<close> block: a rejected \<^verbatim>\<open>fetch\<close>, a response that is not ok (the cycle
  raises \<^verbatim>\<open>Sync failed: ${status} ${statusText}\<close> itself), a body that cannot be read.
  \<open>now\<close> is the time at which \<open>markNotesAsSynced\<close> runs.
\<close>

definition syncWithBackend ::
  "database \<Rightarrow> timestamp \<Rightarrow> fetch \<Rightarrow> string \<Rightarrow> database \<times> sync_result" where
  "syncWithBackend db now fetch apiUrl =
     (let notesToSync = getNotesToSync db in
      if length notesToSync = 0
      then (db, \<lparr>r_success = True, r_synced = 0, r_failed = None, r_error = None,
                 r_message = ''No notes to sync''\<rparr>)
      else
        (case fetch (apiUrl @ ''/api/sync'') (syncData notesToSync) of
           Rejected msg \<Rightarrow> (db, sync_catch msg)
         | Resolved resp \<Rightarrow>
             if \<not> ok resp
             then (db, sync_catch (''Sync failed: '' @ show_nat (status resp) @ '' '' @ statusText resp))
             else
               (case json resp of
                  JsonThrows msg \<Rightarrow> (db, sync_catch msg)
                | JsonValue sids fids \<Rightarrow>
                    (let db1 = (case sids of
                                  None \<Rightarrow> db
                                | Some ids \<Rightarrow>
                                    if length ids > 0
                                    then fst (markNotesAsSynced db now ids) else db);
                         db2 = (case fids of
                                  None \<Rightarrow> db1
                                | Some ids \<Rightarrow>
                                    if length ids > 0
                                    then fst (markNotesSyncError db1 ids) else db1)
                     in (db2,
                         \<lparr>r_success = True, r_synced = ids_length sids,
                          r_failed = Some (ids_length fids), r_error = None,
                          r_message = ''Synced '' @ show_nat (ids_length sids)
                                        @ '' notes successfully''\<rparr>)))))"

section \<open>Search\<close>













section \<open>Frame of the status updates\<close>

text \<open>Two rows agree on every column other than \<open>sync_status\<close> and \<open>synced_at\<close>.\<close>

definition same_content :: "note_row \<Rightarrow> note_row \<Rightarrow> bool" where
  "same_content n n' =
     (note_id n' = note_id n \<and> title n' = title n \<and> content n' = content n
      \<and> created_at n' = created_at n \<and> updated_at n' = updated_at n)"

section \<open>Containing a query\<close>

text \<open>
  The substring test that the pattern match amounts to when the query has no wildcard:
  the characters of the query occur as consecutive characters of the text, both read as
  the engine reads them (as far as the first NUL), letters compared without regard to
  case.
\<close>

fun has_prefix :: "nat list \<Rightarrow> nat list \<Rightarrow> bool" where
  "has_prefix s [] = True"
| "has_prefix [] (p # ps) = False"
| "has_prefix (c # cs) (p # ps) = (c = p \<and> has_prefix cs ps)"

fun has_infix :: "nat list \<Rightarrow> nat list \<Rightarrow> bool" where
  "has_infix [] sub = (sub = [])"
| "has_infix (c # cs) sub = (has_prefix (c # cs) sub \<or> has_infix cs sub)"


section \<open>Sample tables and remotes\<close>

text \<open>
  Concrete states for the worked instances: a table with one synced and one pending
  note; a table with three pending notes; a table whose only note is synced; a table
  whose only note was created at time 50; a table for searching. A remote that answers 200 with the given id lists, and a remote that cannot
  be reached (the runtime rejects the request with the message \<^verbatim>\<open>fetch failed\<close>).
\<close>

definition db0 :: database where
  "db0 = \<lparr>rows = [\<lparr>note_id = 1, title = ''a'', content = Some ''x'', created_at = 10,
                     updated_at = 10, synced_at = Some 12, sync_status = Synced\<rparr>,
                   \<lparr>note_id = 2, title = ''b'', content = None, created_at = 11,
                     updated_at = 11, synced_at = None, sync_status = Pending\<rparr>], seq = 3\<rparr>"

definition db3 :: database where
  "db3 = \<lparr>rows = [\<lparr>note_id = 1, title = ''A'', content = Some ''a'', created_at = 10,
                     updated_at = 10, synced_at = None, sync_status = Pending\<rparr>,
                   \<lparr>note_id = 2, title = ''B'', content = Some ''b'', created_at = 11,
                     updated_at = 11, synced_at = None, sync_status = Pending\<rparr>,
                   \<lparr>note_id = 3, title = ''C'', content = Some ''c'', created_at = 12,
                     updated_at = 12, synced_at = None, sync_status = Pending\<rparr>], seq = 3\<rparr>"


definition db_clock :: database where
  "db_clock = \<lparr>rows = [\<lparr>note_id = 1, title = ''a'', content = Some ''x'', created_at = 50,
                     updated_at = 50, synced_at = None, sync_status = Pending\<rparr>], seq = 1\<rparr>"


definition remote_accepts :: "int list \<Rightarrow> int list \<Rightarrow> fetch" where
  "remote_accepts sids fids = (\<lambda>url notes.
     Resolved \<lparr>ok = True, status = 200, statusText = ''OK'',
               json = JsonValue (Some sids) (Some fids)\<rparr>)"


declare show_nat.simps [simp del]

section \<open>Basic facts\<close>

lemma fold_max_ge_init: "(a::int) \<le> fold max xs a"
  by (induction xs arbitrary: a) (auto intro: order_trans [OF max.cobounded2])

lemma fold_max_ge_mem: "x \<in> set xs \<Longrightarrow> (x::int) \<le> fold max xs a"
proof (induction xs arbitrary: a)
  case Nil
  then show ?case by simp
next
  case (Cons y ys)
  show ?case
  proof (cases "x = y")
    case True
    have "y \<le> max y a" by simp
    also have "\<dots> \<le> fold max ys (max y a)" by (rule fold_max_ge_init)
    finally show ?thesis using True by simp
  next
    case False
    with Cons show ?thesis by simp
  qed
qed

lemma next_rowid_fresh: "n \<in> set (rows db) \<Longrightarrow> note_id n < next_rowid db"
  using fold_max_ge_mem [of "note_id n" "map note_id (rows db)" "max (seq db) 0"]
  by (simp add: next_rowid_def)

lemma find_append_fresh:
  "\<forall>n\<in>set xs. \<not> P n \<Longrightarrow> find P (xs @ ys) = find P ys"
  by (induction xs) auto

section \<open>Adding a note\<close>

text \<open>
  C5. For every title and content, \<open>addNote\<close> returns the full persisted row, whose id
  is the one the engine assigned; \<open>getNoteById\<close> on that id returns that same row, which
  has the given title and content, status pending, and equal creation and update times.
\<close>

theorem addNote_getNoteById:
  "\<exists>db' n. addNote db now (Some t) c = Inr (db', Some n)
     \<and> note_id n = next_rowid db
     \<and> rows db' = rows db @ [n]
     \<and> getNoteById db' (note_id n) = Some n
     \<and> title n = t \<and> content n = c
     \<and> sync_status n = Pending
     \<and> created_at n = updated_at n"
proof -
  have fresh: "\<forall>m\<in>set (rows db). \<not> note_id m = next_rowid db"
    using next_rowid_fresh [of _ db] by fastforce
  show ?thesis
    by (simp add: addNote_def insert_run_def getNoteById_def Let_def
        find_append_fresh [OF fresh])
qed

section \<open>Statistics\<close>

lemma length_filter_status:
  "length xs = length (filter (\<lambda>n. sync_status n = Pending) xs)
             + length (filter (\<lambda>n. sync_status n = Synced) xs)
             + length (filter (\<lambda>n. sync_status n = Error) xs)"
proof (induction xs)
  case Nil
  then show ?case by simp
next
  case (Cons x xs)
  then show ?case by (cases "sync_status x") simp_all
qed

text \<open>
  C10. \<open>getStats\<close> returns the number of all notes, the number of pending notes and the
  number of synced notes; a note in error is counted in the total only, so the total is
  the sum of the pending, synced and error counts.
\<close>

theorem getStats_counts:
  "total (getStats db) = length (rows db)
   \<and> pending (getStats db) = size (filter_mset (\<lambda>n. sync_status n = Pending) (mset (rows db)))
   \<and> synced (getStats db) = size (filter_mset (\<lambda>n. sync_status n = Synced) (mset (rows db)))
   \<and> total (getStats db) = pending (getStats db) + synced (getStats db)
        + size (filter_mset (\<lambda>n. sync_status n = Error) (mset (rows db)))"
proof -
  have count: "\<And>P. size (filter_mset P (mset (rows db))) = length (filter P (rows db))"
    by (metis mset_filter size_mset)
  show ?thesis
    using length_filter_status [of "rows db"] by (simp add: getStats_def count)
qed

section \<open>Missing rows\<close>

lemma find_None_iff_all: "find P xs = None \<longleftrightarrow> (\<forall>x\<in>set xs. \<not> P x)"
  by (induction xs) auto

lemma filter_empty_all: "(\<forall>x\<in>set xs. \<not> P x) \<Longrightarrow> filter P xs = []"
  by (induction xs) auto

lemma filter_all_id: "(\<forall>x\<in>set xs. P x) \<Longrightarrow> filter P xs = xs"
  by (induction xs) auto

text \<open>
  C8. For an id with no matching row, \<open>getNoteById\<close> returns the absent value, \<open>updateNote\<close>
  returns absent (no row was changed, whatever the title and content) and \<open>deleteNote\<close>
  returns false; none of them raises and the database is as before. Hence deleting an
  existing note returns true, and deleting it again returns false and changes nothing.
\<close>

theorem not_found_results:
  "(i \<notin> note_id ` set (rows db) \<longrightarrow>
      getNoteById db i = None
      \<and> updateNote db now i t c = Inr (db, None)
      \<and> deleteNote db i = (db, False))
   \<and> (i \<in> note_id ` set (rows db) \<longrightarrow>
      (\<exists>db1. deleteNote db i = (db1, True)
          \<and> getNoteById db1 i = None
          \<and> deleteNote db1 i = (db1, False)))"
proof (intro conjI impI)
  assume a: "i \<notin> note_id ` set (rows db)"
  then have all: "\<forall>n\<in>set (rows db). \<not> note_id n = i" by auto
  show "getNoteById db i = None"
    using all by (simp add: getNoteById_def find_None_iff_all)
  have f: "filter (\<lambda>n. note_id n = i) (rows db) = []"
    using all by (rule filter_empty_all)
  show "updateNote db now i t c = Inr (db, None)"
    by (simp add: updateNote_def update_run_def f)
  have g: "filter (\<lambda>n. note_id n \<noteq> i) (rows db) = rows db"
    using all by (intro filter_all_id) auto
  show "deleteNote db i = (db, False)"
    by (simp add: deleteNote_def f g)
next
  assume a: "i \<in> note_id ` set (rows db)"
  then have ne: "filter (\<lambda>n. note_id n = i) (rows db) \<noteq> []"
    by (auto simp: filter_empty_conv)
  let ?db1 = "db\<lparr>rows := filter (\<lambda>n. note_id n \<noteq> i) (rows db)\<rparr>"
  have 1: "deleteNote db i = (?db1, True)"
    using ne by (simp add: deleteNote_def)
  have 2: "getNoteById ?db1 i = None"
    by (simp add: getNoteById_def find_None_iff_all)
  have 3: "deleteNote ?db1 i = (?db1, False)"
    by (simp add: deleteNote_def)
  show "\<exists>db1. deleteNote db i = (db1, True) \<and> getNoteById db1 i = None
          \<and> deleteNote db1 i = (db1, False)"
    using 1 2 3 by blast
qed

text \<open>On the sample table: id 7 is missing, id 2 is deleted twice.\<close>

theorem not_found_results_witness:
  "getNoteById db0 7 = None
   \<and> updateNote db0 20 7 (Some ''t'') None = Inr (db0, None)
   \<and> deleteNote db0 7 = (db0, False)
   \<and> (\<exists>db1. deleteNote db0 2 = (db1, True) \<and> getNoteById db1 2 = None
         \<and> deleteNote db1 2 = (db1, False))"
  using not_found_results [of 7 db0 20 "Some ''t''" None] not_found_results [of 2 db0]
  by (simp add: db0_def)

section \<open>Updating a note\<close>

lemma find_map_same_pred:
  "find P xs = Some x \<Longrightarrow> (\<And>y. P (f y) = P y) \<Longrightarrow> find P (map f xs) = Some (f x)"
  by (induction xs) (auto split: if_splits)

lemma find_Some_filter_ne: "find P xs = Some x \<Longrightarrow> filter P xs \<noteq> []"
  by (induction xs) (auto split: if_splits)

lemma find_Some_P: "find P xs = Some x \<Longrightarrow> P x \<and> x \<in> set xs"
  by (induction xs) (auto split: if_splits)

text \<open>
  C4, as amended. For the id of an existing note and every title \<open>t\<close> and content \<open>c\<close>,
  \<open>updateNote\<close> followed by \<open>getNoteById\<close> yields the note with title \<open>t\<close>, content \<open>c\<close>
  and status pending, whatever the note's status and texts were before. Its creation time
  is as it was and its update time is the current time of the engine, so the update time
  is not before the creation time exactly when the clock, at the update, is not behind
  the time at which the note was created.
\<close>

theorem updateNote_getNoteById:
  assumes "getNoteById db i = Some n0"
  shows "\<exists>db' n. updateNote db now i (Some t) c = Inr (db', Some n)
           \<and> getNoteById db' i = Some n
           \<and> n = n0\<lparr>title := t, content := c, updated_at := now, sync_status := Pending\<rparr>
           \<and> note_id n = i \<and> title n = t \<and> content n = c
           \<and> sync_status n = Pending
           \<and> created_at n = created_at n0 \<and> updated_at n = now
           \<and> (created_at n \<le> updated_at n \<longleftrightarrow> created_at n0 \<le> now)"
proof -
  let ?f = "\<lambda>n. if note_id n = i
                 then n\<lparr>title := t, content := c, updated_at := now, sync_status := Pending\<rparr>
                 else n"
  have f0: "find (\<lambda>n. note_id n = i) (rows db) = Some n0"
    using assms(1) by (simp add: getNoteById_def)
  have ne: "filter (\<lambda>n. note_id n = i) (rows db) \<noteq> []"
    using f0 by (rule find_Some_filter_ne)
  have id0: "note_id n0 = i"
    using find_Some_P [OF f0] by simp
  have "find (\<lambda>n. note_id n = i) (map ?f (rows db)) = Some (?f n0)"
    using f0 by (rule find_map_same_pred) simp
  then have g: "getNoteById (db\<lparr>rows := map ?f (rows db)\<rparr>) i = Some (?f n0)"
    by (simp add: getNoteById_def)
  have u: "updateNote db now i (Some t) c
             = Inr (db\<lparr>rows := map ?f (rows db)\<rparr>, Some (?f n0))"
    using ne g by (simp add: updateNote_def update_run_def)
  show ?thesis
    using u g id0 by simp
qed

text \<open>
  On the sample table: note 1 is synced, and is updated at time 20 with the title and
  content it already has; it is pending afterwards, created at 10 and updated at 20.
\<close>

theorem updateNote_getNoteById_witness:
  "\<exists>db' n. updateNote db0 20 1 (Some ''a'') (Some ''x'') = Inr (db', Some n)
           \<and> getNoteById db' 1 = Some n
           \<and> title n = ''a'' \<and> content n = Some ''x''
           \<and> sync_status n = Pending
           \<and> created_at n = 10 \<and> updated_at n = 20"
proof -
  let ?n0 = "\<lparr>note_id = 1, title = ''a'', content = Some ''x'', created_at = 10,
               updated_at = 10, synced_at = Some 12, sync_status = Synced\<rparr>"
  have h1: "getNoteById db0 1 = Some ?n0" by (simp add: getNoteById_def db0_def)
  show ?thesis
    using updateNote_getNoteById [OF h1, of 20 "''a''" "Some ''x''"] by auto
qed

text \<open>
  C4 as stated fails when the clock has been set back: a note created at time 50 and
  updated when the clock reads 20 has an update time before its creation time.
\<close>

theorem updateNote_clock_counterexample:
  "updateNote db_clock 20 1 (Some ''t'') (Some ''c'')
     = Inr (\<lparr>rows = [\<lparr>note_id = 1, title = ''t'', content = Some ''c'', created_at = 50,
                       updated_at = 20, synced_at = None, sync_status = Pending\<rparr>], seq = 1\<rparr>,
            Some \<lparr>note_id = 1, title = ''t'', content = Some ''c'', created_at = 50,
                   updated_at = 20, synced_at = None, sync_status = Pending\<rparr>)
   \<and> getNoteById \<lparr>rows = [\<lparr>note_id = 1, title = ''t'', content = Some ''c'', created_at = 50,
                       updated_at = 20, synced_at = None, sync_status = Pending\<rparr>], seq = 1\<rparr> 1
     = Some \<lparr>note_id = 1, title = ''t'', content = Some ''c'', created_at = 50,
                   updated_at = 20, synced_at = None, sync_status = Pending\<rparr>
   \<and> \<not> created_at \<lparr>note_id = 1, title = ''t'', content = Some ''c'', created_at = 50,
                   updated_at = 20, synced_at = None, sync_status = Pending\<rparr>
         \<le> updated_at \<lparr>note_id = 1, title = ''t'', content = Some ''c'', created_at = 50,
                   updated_at = 20, synced_at = None, sync_status = Pending\<rparr>"
  by (simp add: updateNote_def update_run_def getNoteById_def db_clock_def)

section \<open>The status updates and the other columns\<close>

lemma list_all2_map_self: "(\<And>x. x \<in> set xs \<Longrightarrow> R x (f x)) \<Longrightarrow> list_all2 R xs (map f xs)"
  by (induction xs) auto

text \<open>
  C9. \<open>markNotesAsSynced\<close> and \<open>markNotesSyncError\<close> change only \<open>sync_status\<close> and
  \<open>synced_at\<close> of the notes whose id is in the list: row by row, the id, title, content,
  creation time and update time are as before, a row whose id is not in the list is
  unchanged, and the \<^verbatim>\<open>AUTOINCREMENT\<close> counter is unchanged. (\<open>markNotesSyncError\<close> leaves
  \<open>synced_at\<close> alone as well.)
\<close>

theorem mark_changes_only_sync_fields:
  "(case markNotesAsSynced db now ids of (db', changes) \<Rightarrow>
      seq db' = seq db
      \<and> list_all2 (\<lambda>n n'. same_content n n'
            \<and> (if note_id n \<in> set ids
               then n' = n\<lparr>sync_status := Synced, synced_at := Some now\<rparr>
               else n' = n)) (rows db) (rows db'))
   \<and> (case markNotesSyncError db ids of (db', changes) \<Rightarrow>
      seq db' = seq db
      \<and> list_all2 (\<lambda>n n'. same_content n n' \<and> synced_at n' = synced_at n
            \<and> (if note_id n \<in> set ids
               then n' = n\<lparr>sync_status := Error\<rparr>
               else n' = n)) (rows db) (rows db'))"
proof (intro conjI)
  show "case markNotesAsSynced db now ids of (db', changes) \<Rightarrow>
      seq db' = seq db
      \<and> list_all2 (\<lambda>n n'. same_content n n'
            \<and> (if note_id n \<in> set ids
               then n' = n\<lparr>sync_status := Synced, synced_at := Some now\<rparr>
               else n' = n)) (rows db) (rows db')"
  proof (cases "ids = []")
    case True
    then show ?thesis
      by (simp add: markNotesAsSynced_def same_content_def list_all2_same)
  next
    case False
    then show ?thesis
      by (simp add: markNotesAsSynced_def)
         (rule list_all2_map_self, simp add: same_content_def)
  qed
next
  show "case markNotesSyncError db ids of (db', changes) \<Rightarrow>
      seq db' = seq db
      \<and> list_all2 (\<lambda>n n'. same_content n n' \<and> synced_at n' = synced_at n
            \<and> (if note_id n \<in> set ids
               then n' = n\<lparr>sync_status := Error\<rparr>
               else n' = n)) (rows db) (rows db')"
  proof (cases "ids = []")
    case True
    then show ?thesis
      by (simp add: markNotesSyncError_def same_content_def list_all2_same)
  next
    case False
    then show ?thesis
      by (simp add: markNotesSyncError_def)
         (rule list_all2_map_self, simp add: same_content_def)
  qed
qed

text \<open>On the sample table: marking [2, 9] as synced, and marking [1] as failed.\<close>

theorem mark_changes_only_sync_fields_witness:
  "fst (markNotesAsSynced db0 30 [2, 9]) =
     \<lparr>rows = [\<lparr>note_id = 1, title = ''a'', content = Some ''x'', created_at = 10,
                     updated_at = 10, synced_at = Some 12, sync_status = Synced\<rparr>,
                   \<lparr>note_id = 2, title = ''b'', content = None, created_at = 11,
                     updated_at = 11, synced_at = Some 30, sync_status = Synced\<rparr>], seq = 3\<rparr>
   \<and> fst (markNotesSyncError db0 [1]) =
     \<lparr>rows = [\<lparr>note_id = 1, title = ''a'', content = Some ''x'', created_at = 10,
                     updated_at = 10, synced_at = Some 12, sync_status = Error\<rparr>,
                   \<lparr>note_id = 2, title = ''b'', content = None, created_at = 11,
                     updated_at = 11, synced_at = None, sync_status = Pending\<rparr>], seq = 3\<rparr>"
  using mark_changes_only_sync_fields [where db = db0 and now = 30 and ids = "[2, 9]"]
        mark_changes_only_sync_fields [where db = db0 and now = 30 and ids = "[1]"]
  by (simp add: db0_def markNotesAsSynced_def markNotesSyncError_def)

section \<open>Listing with a column outside the allow-list\<close>

lemma mset_order_by: "mset (order_by key asc ns) = mset ns"
  by (simp add: order_by_def)

lemma sorted_order_by_asc: "sorted (map key (order_by key True ns))"
  by (simp add: order_by_def)

lemma sorted_order_by_desc: "sorted (rev (map key (order_by key False ns)))"
  by (simp add: order_by_def rev_map [symmetric])

text \<open>
  C7. For a sort column outside the allow-list and any order text, \<open>getNotes\<close> returns
  all notes (it has no failing path), ordered by \<open>created_at\<close>: ascending when the order
  text is \<^verbatim>\<open>ASC\<close> after upper-casing, descending for anything else. The call is the
  same as the one with column \<^verbatim>\<open>created_at\<close> and the normalised order.
\<close>

theorem getNotes_fallback:
  assumes "sortBy \<notin> set allowedColumns"
  shows "mset (getNotes db sortBy order) = mset (rows db)
         \<and> (if toUpperCase order = ''ASC''
            then sorted (map created_at (getNotes db sortBy order))
            else sorted (rev (map created_at (getNotes db sortBy order))))
         \<and> getNotes db sortBy order
             = getNotes db ''created_at'' (if toUpperCase order = ''ASC'' then ''ASC'' else ''DESC'')"
proof -
  have g: "getNotes db sortBy order = order_by created_at (toUpperCase order = ''ASC'') (rows db)"
    using assms by (simp add: getNotes_def)
  have u1: "toUpperCase ''ASC'' = ''ASC''" by (simp add: toUpperCase_def upper_char_def)
  have u2: "toUpperCase ''DESC'' \<noteq> ''ASC''" by (simp add: toUpperCase_def upper_char_def)
  have c: "getNotes db ''created_at'' (if toUpperCase order = ''ASC'' then ''ASC'' else ''DESC'')
             = order_by created_at (toUpperCase order = ''ASC'') (rows db)"
    using u1 u2 by (simp add: getNotes_def allowedColumns_def)
  show ?thesis
    by (simp add: g c mset_order_by sorted_order_by_asc sorted_order_by_desc)
qed

text \<open>On the sample table, with the orders \<^verbatim>\<open>sideways\<close> and \<^verbatim>\<open>aSc\<close>.\<close>

theorem getNotes_fallback_witness:
  "''not_a_column'' \<notin> set allowedColumns
   \<and> map note_id (getNotes db0 ''not_a_column'' ''sideways'') = [2, 1]
   \<and> map note_id (getNotes db0 ''not_a_column'' ''aSc'') = [1, 2]
   \<and> sorted (rev (map created_at (getNotes db0 ''not_a_column'' ''sideways'')))
   \<and> sorted (map created_at (getNotes db0 ''not_a_column'' ''aSc''))"
proof -
  have h: "''not_a_column'' \<notin> set allowedColumns" by (simp add: allowedColumns_def)
  have u1: "toUpperCase ''sideways'' \<noteq> ''ASC''" by (simp add: toUpperCase_def upper_char_def)
  have u2: "toUpperCase ''aSc'' = ''ASC''" by (simp add: toUpperCase_def upper_char_def)
  have v1: "map note_id (getNotes db0 ''not_a_column'' ''sideways'') = [2, 1]"
    using u1 by (simp add: getNotes_def allowedColumns_def order_by_def db0_def)
  have v2: "map note_id (getNotes db0 ''not_a_column'' ''aSc'') = [1, 2]"
    using u2 by (simp add: getNotes_def allowedColumns_def order_by_def db0_def)
  have s1: "sorted (rev (map created_at (getNotes db0 ''not_a_column'' ''sideways'')))"
    using getNotes_fallback [where db = db0 and order = "''sideways''", OF h, THEN conjunct2, THEN conjunct1] u1
    by (simp only: if_False)
  have s2: "sorted (map created_at (getNotes db0 ''not_a_column'' ''aSc''))"
    using getNotes_fallback [where db = db0 and order = "''aSc''", OF h, THEN conjunct2, THEN conjunct1] u2
    by (simp only: if_True)
  show ?thesis
    using h v1 v2 s1 s2 by blast
qed

section \<open>Bulk insert is all or nothing\<close>

lemma insert_run_Some:
  "insert_run db now (Some t) c = Inr (db', i) \<Longrightarrow>
     i = next_rowid db
     \<and> rows db' = rows db @ [\<lparr>note_id = i, title = t, content = c, created_at = now,
                               updated_at = now, synced_at = None, sync_status = Pending\<rparr>]"
  by (auto simp: insert_run_def Let_def)

lemma insertMany_loop_Inr:
  "insertMany_loop db clock k ns ids = Inr (db', ids') \<Longrightarrow>
     \<exists>new. ids' = ids @ map note_id new
       \<and> rows db' = rows db @ new
       \<and> distinct (map note_id new)
       \<and> set (map note_id new) \<inter> note_id ` set (rows db) = {}
       \<and> map title_in ns = map (\<lambda>r. Some (title r)) new
       \<and> map (\<lambda>n. Some (content_or_empty (content_in n))) ns = map content new
       \<and> map created_at new = map clock [k ..< k + length ns]
       \<and> (\<forall>r\<in>set new. updated_at r = created_at r \<and> synced_at r = None
                \<and> sync_status r = Pending)"
proof (induction ns arbitrary: db k ids)
  case Nil
  then show ?case by simp
next
  case (Cons n ns)
  from Cons.prems obtain t where t: "title_in n = Some t"
    by (cases "title_in n") (auto simp: insert_run_def)
  from Cons.prems t obtain db1 i where
    ins: "insert_run db (clock k) (Some t) (Some (content_or_empty (content_in n))) = Inr (db1, i)"
    and rest: "insertMany_loop db1 clock (Suc k) ns (ids @ [i]) = Inr (db', ids')"
    by (auto split: sum.splits)
  let ?r = "\<lparr>note_id = i, title = t, content = Some (content_or_empty (content_in n)),
             created_at = clock k, updated_at = clock k, synced_at = None,
             sync_status = Pending\<rparr>"
  from insert_run_Some [OF ins] have i: "i = next_rowid db" and r1: "rows db1 = rows db @ [?r]"
    by simp_all
  from Cons.IH [OF rest] obtain new where
    n1: "ids' = (ids @ [i]) @ map note_id new"
    and n2: "rows db' = rows db1 @ new"
    and n3: "distinct (map note_id new)"
    and n4: "set (map note_id new) \<inter> note_id ` set (rows db1) = {}"
    and n5: "map title_in ns = map (\<lambda>r. Some (title r)) new"
    and n6: "map (\<lambda>n. Some (content_or_empty (content_in n))) ns = map content new"
    and n7: "map created_at new = map clock [Suc k ..< Suc k + length ns]"
    and n8: "\<forall>r\<in>set new. updated_at r = created_at r \<and> synced_at r = None
                \<and> sync_status r = Pending"
    by blast
  have fresh: "i \<notin> note_id ` set (rows db)"
    using next_rowid_fresh [of _ db] i by fastforce
  have inew: "i \<notin> set (map note_id new)"
    using n4 r1 by auto
  have up: "[k ..< k + length (n # ns)] = k # [Suc k ..< Suc k + length ns]"
    by (subst upt_rec) simp
  have "ids' = ids @ map note_id (?r # new)" using n1 by simp
  moreover have "rows db' = rows db @ (?r # new)" using n2 r1 by simp
  moreover have "distinct (map note_id (?r # new))" using n3 inew by simp
  moreover have "set (map note_id (?r # new)) \<inter> note_id ` set (rows db) = {}"
    using n4 r1 fresh by auto
  moreover have "map title_in (n # ns) = map (\<lambda>r. Some (title r)) (?r # new)"
    using n5 t by simp
  moreover have "map (\<lambda>n. Some (content_or_empty (content_in n))) (n # ns) = map content (?r # new)"
    using n6 by simp
  moreover have "map created_at (?r # new) = map clock [k ..< k + length (n # ns)]"
    using n7 by (simp only: up) simp
  moreover have "\<forall>r\<in>set (?r # new). updated_at r = created_at r \<and> synced_at r = None
                \<and> sync_status r = Pending"
    using n8 by simp
  ultimately show ?case by blast
qed

lemma insertMany_loop_total:
  "list_all (\<lambda>n. title_in n \<noteq> None) ns \<Longrightarrow> \<exists>db' ids'. insertMany_loop db clock k ns ids = Inr (db', ids')"
proof (induction ns arbitrary: db k ids)
  case Nil
  then show ?case by simp
next
  case (Cons n ns)
  then obtain t where t: "title_in n = Some t" by auto
  show ?case
    using Cons t by (simp add: insert_run_def Let_def)
qed

lemma insertMany_loop_fails:
  "\<not> list_all (\<lambda>n. title_in n \<noteq> None) ns \<Longrightarrow> insertMany_loop db clock k ns ids = Inl NotNullConstraint"
proof (induction ns arbitrary: db k ids)
  case Nil
  then show ?case by simp
next
  case (Cons n ns)
  show ?case
  proof (cases "title_in n")
    case None
    then show ?thesis by (simp add: insert_run_def)
  next
    case (Some t)
    with Cons.prems have "\<not> list_all (\<lambda>n. title_in n \<noteq> None) ns" by simp
    from Cons.IH [OF this] show ?thesis
      using Some by (simp add: insert_run_def Let_def)
  qed
qed

text \<open>
  C1. \<open>addNotesBulk\<close> inserts a batch inside one transaction. When no insert raises (every
  element has a title), it returns as many ids as there are elements, all distinct and
  none of them in use before, in the order of the input: the table is the old table
  followed by one new row per element, in order, carrying that element's title and
  content. When the engine raises on some element (a missing title), the call raises and
  the database is exactly as before: none of the batch is visible.
\<close>

theorem addNotesBulk_all_or_nothing:
  "(list_all (\<lambda>n. title_in n \<noteq> None) batch \<longrightarrow>
      (\<exists>db' ids new. addNotesBulk db clock batch = (db', Inr ids)
          \<and> length ids = length batch \<and> distinct ids
          \<and> set ids \<inter> note_id ` set (rows db) = {}
          \<and> rows db' = rows db @ new
          \<and> length (rows db') = length (rows db) + length batch
          \<and> map note_id new = ids
          \<and> map (\<lambda>r. Some (title r)) new = map title_in batch
          \<and> map content new = map (\<lambda>n. Some (content_or_empty (content_in n))) batch))
   \<and> (\<not> list_all (\<lambda>n. title_in n \<noteq> None) batch \<longrightarrow>
      addNotesBulk db clock batch = (db, Inl NotNullConstraint))"
proof (intro conjI impI)
  assume ok: "list_all (\<lambda>n. title_in n \<noteq> None) batch"
  from insertMany_loop_total [OF ok] obtain db' ids where
    run: "insertMany_loop db clock 0 batch [] = Inr (db', ids)" by blast
  from insertMany_loop_Inr [OF run] obtain new where
    n1: "ids = map note_id new"
    and n2: "rows db' = rows db @ new"
    and n3: "distinct (map note_id new)"
    and n4: "set (map note_id new) \<inter> note_id ` set (rows db) = {}"
    and n5: "map title_in batch = map (\<lambda>r. Some (title r)) new"
    and n6: "map (\<lambda>n. Some (content_or_empty (content_in n))) batch = map content new"
    by auto
  have len: "length new = length batch"
    using n5 by (metis length_map)
  have res: "addNotesBulk db clock batch = (db', Inr ids)"
    using run by (simp add: addNotesBulk_def transaction_def)
  show "\<exists>db' ids new. addNotesBulk db clock batch = (db', Inr ids)
          \<and> length ids = length batch \<and> distinct ids
          \<and> set ids \<inter> note_id ` set (rows db) = {}
          \<and> rows db' = rows db @ new
          \<and> length (rows db') = length (rows db) + length batch
          \<and> map note_id new = ids
          \<and> map (\<lambda>r. Some (title r)) new = map title_in batch
          \<and> map content new = map (\<lambda>n. Some (content_or_empty (content_in n))) batch"
    using res n1 n2 n3 n4 n5 n6 len
    by (intro exI [of _ db'] exI [of _ ids] exI [of _ new]) simp
next
  assume bad: "\<not> list_all (\<lambda>n. title_in n \<noteq> None) batch"
  show "addNotesBulk db clock batch = (db, Inl NotNullConstraint)"
    using insertMany_loop_fails [OF bad, of db clock 0 "[]"]
    by (simp add: addNotesBulk_def transaction_def)
qed

text \<open>
  On the sample table: a batch of two gets the ids 4 and 5; a batch of three whose second
  element has no title leaves the table as it was.
\<close>

theorem addNotesBulk_all_or_nothing_witness:
  "(\<exists>db'. addNotesBulk db0 (\<lambda>k. 40 + k)
       [\<lparr>title_in = Some ''n1'', content_in = None\<rparr>,
        \<lparr>title_in = Some ''n2'', content_in = Some ''c2''\<rparr>] = (db', Inr [4, 5])
      \<and> length (rows db') = 4)
   \<and> addNotesBulk db0 (\<lambda>k. 40 + k)
       [\<lparr>title_in = Some ''n1'', content_in = None\<rparr>,
        \<lparr>title_in = None, content_in = Some ''c2''\<rparr>,
        \<lparr>title_in = Some ''n3'', content_in = Some ''c3''\<rparr>] = (db0, Inl NotNullConstraint)"
proof -
  let ?good = "[\<lparr>title_in = Some ''n1'', content_in = None\<rparr>,
        \<lparr>title_in = Some ''n2'', content_in = Some ''c2''\<rparr>]"
  let ?bad = "[\<lparr>title_in = Some ''n1'', content_in = None\<rparr>,
        \<lparr>title_in = None, content_in = Some ''c2''\<rparr>,
        \<lparr>title_in = Some ''n3'', content_in = Some ''c3''\<rparr>]"
  have g: "list_all (\<lambda>n. title_in n \<noteq> None) ?good" by simp
  have b: "\<not> list_all (\<lambda>n. title_in n \<noteq> None) ?bad" by simp
  have ids: "snd (addNotesBulk db0 (\<lambda>k. 40 + k) ?good) = Inr [4, 5]"
    by (simp add: addNotesBulk_def transaction_def insert_run_def next_rowid_def
        Let_def db0_def)
  from addNotesBulk_all_or_nothing [where batch = "?good" and db = db0 and clock = "\<lambda>k. 40 + k", THEN conjunct1] g
  obtain db' ids' where r: "addNotesBulk db0 (\<lambda>k. 40 + k) ?good = (db', Inr ids')"
    and l: "length (rows db') = length (rows db0) + length ?good"
    by blast
  from r ids have "ids' = [4, 5]" by simp
  moreover have "length (rows db0) = 2" by (simp add: db0_def)
  ultimately have 1: "\<exists>db'. addNotesBulk db0 (\<lambda>k. 40 + k) ?good = (db', Inr [4, 5])
      \<and> length (rows db') = 4"
    using r l by auto
  have 2: "addNotesBulk db0 (\<lambda>k. 40 + k) ?bad = (db0, Inl NotNullConstraint)"
    using addNotesBulk_all_or_nothing [where batch = "?bad" and db = db0 and clock = "\<lambda>k. 40 + k", THEN conjunct2] b by blast
  show ?thesis using 1 2 by blast
qed

section \<open>The primary key is kept\<close>

text \<open>Every operation of the module keeps the ids of the table distinct.\<close>

lemma wf_db_empty: "wf_db empty_database"
  by (simp add: wf_db_def empty_database_def)

lemma wf_db_insert_run:
  assumes "wf_db db" and "insert_run db now t c = Inr (db', i)"
  shows "wf_db db'"
proof -
  from assms(2) obtain ttl where t: "t = Some ttl"
    by (cases t) (auto simp: insert_run_def)
  have fresh: "next_rowid db \<notin> note_id ` set (rows db)"
    using next_rowid_fresh [of _ db] by fastforce
  show ?thesis
    using assms fresh unfolding t by (auto simp: insert_run_def Let_def wf_db_def)
qed

lemma wf_db_addNote: "wf_db db \<Longrightarrow> addNote db now t c = Inr (db', r) \<Longrightarrow> wf_db db'"
  by (auto simp: addNote_def split: sum.splits intro: wf_db_insert_run)

lemma note_id_comp_keep:
  fixes f :: "note_row \<Rightarrow> note_row"
  shows "(\<And>n. note_id (f n) = note_id n) \<Longrightarrow> note_id \<circ> f = note_id"
  by (rule ext) simp

lemma wf_db_updateNote:
  assumes "wf_db db" and "updateNote db now i t c = Inr (db', r)"
  shows "wf_db db'"
proof -
  have "note_id \<circ> (\<lambda>n::note_row. if note_id n = i
            then n\<lparr>title := ttl, content := c, updated_at := now, sync_status := Pending\<rparr>
            else n) = note_id" for ttl
    by (rule note_id_comp_keep) simp
  then show ?thesis
    using assms
    by (auto simp: updateNote_def update_run_def Let_def wf_db_def
        split: if_splits option.splits)
qed

lemma wf_db_deleteNote: "wf_db db \<Longrightarrow> wf_db (fst (deleteNote db i))"
  by (simp add: deleteNote_def wf_db_def distinct_map_filter)

lemma wf_db_markNotesAsSynced: "wf_db db \<Longrightarrow> wf_db (fst (markNotesAsSynced db now ids))"
proof -
  have "note_id \<circ> (\<lambda>n::note_row. if note_id n \<in> set ids
            then n\<lparr>sync_status := Synced, synced_at := Some now\<rparr> else n) = note_id"
    by (rule note_id_comp_keep) simp
  then show "wf_db db \<Longrightarrow> wf_db (fst (markNotesAsSynced db now ids))"
    by (simp add: markNotesAsSynced_def wf_db_def)
qed

lemma wf_db_markNotesSyncError: "wf_db db \<Longrightarrow> wf_db (fst (markNotesSyncError db ids))"
proof -
  have "note_id \<circ> (\<lambda>n::note_row. if note_id n \<in> set ids
            then n\<lparr>sync_status := Error\<rparr> else n) = note_id"
    by (rule note_id_comp_keep) simp
  then show "wf_db db \<Longrightarrow> wf_db (fst (markNotesSyncError db ids))"
    by (simp add: markNotesSyncError_def wf_db_def)
qed

lemma wf_db_addNotesBulk:
  assumes "wf_db db"
  shows "wf_db (fst (addNotesBulk db clock batch))"
proof (cases "insertMany_loop db clock 0 batch []")
  case (Inl e)
  then show ?thesis using assms by (simp add: addNotesBulk_def transaction_def)
next
  case (Inr p)
  obtain db' ids where p: "p = (db', ids)" by (cases p)
  from insertMany_loop_Inr [OF Inr [unfolded p]] obtain new where
    "rows db' = rows db @ new" "distinct (map note_id new)"
    "set (map note_id new) \<inter> note_id ` set (rows db) = {}"
    by blast
  then have "wf_db db'"
    using assms by (auto simp: wf_db_def)
  then show ?thesis using Inr p by (simp add: addNotesBulk_def transaction_def)
qed

lemma wf_db_syncWithBackend:
  assumes "wf_db db"
  shows "wf_db (fst (syncWithBackend db now fetch apiUrl))"
proof -
  have m: "\<And>d ids. wf_db d \<Longrightarrow> wf_db (fst (markNotesAsSynced d now ids))"
    by (rule wf_db_markNotesAsSynced)
  have e: "\<And>d ids. wf_db d \<Longrightarrow> wf_db (fst (markNotesSyncError d ids))"
    by (rule wf_db_markNotesSyncError)
  show ?thesis
    using assms m e
    by (simp add: syncWithBackend_def Let_def
        split: fetch_outcome.splits json_result.splits option.splits)
qed

section \<open>The sync cycle: reconciliation\<close>

lemma filter_distinct_key:
  "distinct (map f xs) \<Longrightarrow> x \<in> set xs \<Longrightarrow> filter (\<lambda>y. f y = f x) xs = [x]"
proof (induction xs)
  case Nil
  then show ?case by simp
next
  case (Cons y ys)
  show ?case
  proof (cases "x = y")
    case True
    from Cons.prems True have "f x \<notin> f ` set ys" by simp
    then have "\<forall>z\<in>set ys. f z \<noteq> f x" by (metis image_eqI)
    then have "filter (\<lambda>z. f z = f x) ys = []" by (simp add: filter_empty_conv)
    with True show ?thesis by simp
  next
    case False
    with Cons.prems have "x \<in> set ys" "f y \<noteq> f x" by auto
    with Cons show ?thesis by simp
  qed
qed

lemma show_nat_2: "show_nat (Suc (Suc 0)) = ''2''"
  by (subst show_nat.simps) (simp add: numeral_2_eq_2 [symmetric])

lemma order_by_single: "order_by key asc [x] = [x]"
  by (simp add: order_by_def)

text \<open>
  C3. For a database whose notes to sync are A, B and C, when the remote answers with
  success, \<^verbatim>\<open>syncedIds\<close> [A, B] and \<^verbatim>\<open>failedIds\<close> [C], the cycle leaves A and B synced
  with \<open>synced_at\<close> set (to the time of the update), leaves C in error, and
  \<open>getNotesToSync\<close> afterwards returns exactly [C].
\<close>

theorem sync_reconciles:
  assumes wf: "wf_db db"
    and a: "getNoteById db a = Some na" and b: "getNoteById db b = Some nb"
    and c: "getNoteById db c = Some nc"
    and dist: "distinct [a, b, c]"
    and pend: "set (getNotesToSync db) = {na, nb, nc}"
    and resp: "fetch (apiUrl @ ''/api/sync'') (syncData (getNotesToSync db)) = Resolved r"
    and ok: "ok r" and body: "json r = JsonValue (Some [a, b]) (Some [c])"
  shows "\<exists>db' res. syncWithBackend db now fetch apiUrl = (db', res)
           \<and> getNoteById db' a = Some (na\<lparr>sync_status := Synced, synced_at := Some now\<rparr>)
           \<and> getNoteById db' b = Some (nb\<lparr>sync_status := Synced, synced_at := Some now\<rparr>)
           \<and> getNoteById db' c = Some (nc\<lparr>sync_status := Error\<rparr>)
           \<and> getNotesToSync db' = [nc\<lparr>sync_status := Error\<rparr>]
           \<and> r_success res \<and> r_synced res = 2 \<and> r_failed res = Some 1"
proof -
  define f where "f = (\<lambda>n::note_row. if note_id n \<in> set [a, b]
                 then n\<lparr>sync_status := Synced, synced_at := Some now\<rparr> else n)"
  define g where "g = (\<lambda>n::note_row. if note_id n \<in> set [c] then n\<lparr>sync_status := Error\<rparr> else n)"
  define db' where "db' = db\<lparr>rows := map (g \<circ> f) (rows db)\<rparr>"
  have ida: "note_id na = a" and ma: "na \<in> set (rows db)"
    using find_Some_P [of "\<lambda>n. note_id n = a" "rows db" na] a by (simp_all add: getNoteById_def)
  have idb: "note_id nb = b" and mb: "nb \<in> set (rows db)"
    using find_Some_P [of "\<lambda>n. note_id n = b" "rows db" nb] b by (simp_all add: getNoteById_def)
  have idc: "note_id nc = c" and mc: "nc \<in> set (rows db)"
    using find_Some_P [of "\<lambda>n. note_id n = c" "rows db" nc] c by (simp_all add: getNoteById_def)
  have ne: "getNotesToSync db \<noteq> []"
    using pend by auto
  have run: "syncWithBackend db now fetch apiUrl
       = (db', \<lparr>r_success = True, r_synced = 2, r_failed = Some 1, r_error = None,
                 r_message = ''Synced 2 notes successfully''\<rparr>)"
    using ne resp ok body
    by (simp add: syncWithBackend_def Let_def ids_length_def markNotesAsSynced_def
        markNotesSyncError_def show_nat_2 db'_def f_def g_def comp_def)
  have pres: "\<And>i y. (note_id ((g \<circ> f) y) = i) = (note_id y = i)"
    by (simp add: f_def g_def)
  have get: "getNoteById db' i = Some ((g \<circ> f) n)" if "getNoteById db i = Some n" for i n
    using find_map_same_pred [of "\<lambda>n. note_id n = i" "rows db" n "g \<circ> f"] that pres
    by (simp add: getNoteById_def db'_def)
  have va: "(g \<circ> f) na = na\<lparr>sync_status := Synced, synced_at := Some now\<rparr>"
    using ida dist by (simp add: f_def g_def)
  have vb: "(g \<circ> f) nb = nb\<lparr>sync_status := Synced, synced_at := Some now\<rparr>"
    using idb dist by (simp add: f_def g_def)
  have vc: "(g \<circ> f) nc = nc\<lparr>sync_status := Error\<rparr>"
    using idc dist by (auto simp add: f_def g_def)
  have others: "sync_status n = Synced" if n: "n \<in> set (rows db)" and o: "note_id n \<notin> {a, b, c}" for n
  proof -
    have "n \<notin> {na, nb, nc}" using o ida idb idc by auto
    then have "n \<notin> set (getNotesToSync db)" using pend by simp
    then have "\<not> (sync_status n = Pending \<or> sync_status n = Error)"
      using n by (simp add: getNotesToSync_def order_by_def)
    then show "sync_status n = Synced" by (cases "sync_status n") auto
  qed
  have st: "(sync_status ((g \<circ> f) n) = Pending \<or> sync_status ((g \<circ> f) n) = Error)
              = (note_id n = note_id nc)" if n: "n \<in> set (rows db)" for n
  proof (cases "note_id n \<in> {a, b, c}")
    case True
    then show ?thesis using dist idc by (auto simp: f_def g_def)
  next
    case False
    with others [OF n] show ?thesis using idc by (auto simp: f_def g_def)
  qed
  have "filter (\<lambda>n. sync_status n = Pending \<or> sync_status n = Error) (map (g \<circ> f) (rows db))
           = map (g \<circ> f) (filter (\<lambda>n. sync_status ((g \<circ> f) n) = Pending
                                      \<or> sync_status ((g \<circ> f) n) = Error) (rows db))"
    by (simp add: filter_map comp_def)
  also have "\<dots> = map (g \<circ> f) (filter (\<lambda>n. note_id n = note_id nc) (rows db))"
    by (rule arg_cong [where f = "map (g \<circ> f)"], rule filter_cong [OF refl]) (rule st)
  also have "\<dots> = map (g \<circ> f) [nc]"
    using filter_distinct_key [of note_id "rows db" nc] wf mc by (simp add: wf_db_def)
  finally have ts: "getNotesToSync db' = [(g \<circ> f) nc]"
    by (simp add: getNotesToSync_def db'_def order_by_single)
  show ?thesis
    using run get [OF a] get [OF b] get [OF c] ts va vb vc by simp
qed


text \<open>On the table with three pending notes.\<close>

theorem sync_reconciles_witness:
  "\<exists>db' res. syncWithBackend db3 50 (remote_accepts [1, 2] [3]) ''http://localhost:3000'' = (db', res)
     \<and> getNoteById db' 1 = Some \<lparr>note_id = 1, title = ''A'', content = Some ''a'', created_at = 10,
                     updated_at = 10, synced_at = Some 50, sync_status = Synced\<rparr>
     \<and> getNoteById db' 2 = Some \<lparr>note_id = 2, title = ''B'', content = Some ''b'', created_at = 11,
                     updated_at = 11, synced_at = Some 50, sync_status = Synced\<rparr>
     \<and> getNoteById db' 3 = Some \<lparr>note_id = 3, title = ''C'', content = Some ''c'', created_at = 12,
                     updated_at = 12, synced_at = None, sync_status = Error\<rparr>
     \<and> getNotesToSync db' = [\<lparr>note_id = 3, title = ''C'', content = Some ''c'', created_at = 12,
                     updated_at = 12, synced_at = None, sync_status = Error\<rparr>]
     \<and> r_success res \<and> r_synced res = 2 \<and> r_failed res = Some 1"
proof -
  let ?A = "\<lparr>note_id = 1, title = ''A'', content = Some ''a'', created_at = 10,
                     updated_at = 10, synced_at = None, sync_status = Pending\<rparr>"
  let ?B = "\<lparr>note_id = 2, title = ''B'', content = Some ''b'', created_at = 11,
                     updated_at = 11, synced_at = None, sync_status = Pending\<rparr>"
  let ?C = "\<lparr>note_id = 3, title = ''C'', content = Some ''c'', created_at = 12,
                     updated_at = 12, synced_at = None, sync_status = Pending\<rparr>"
  let ?r = "\<lparr>ok = True, status = 200, statusText = ''OK'',
               json = JsonValue (Some [1, 2]) (Some [3])\<rparr>"
  have wf: "wf_db db3" by (simp add: wf_db_def db3_def)
  have a: "getNoteById db3 1 = Some ?A" by (simp add: getNoteById_def db3_def)
  have b: "getNoteById db3 2 = Some ?B" by (simp add: getNoteById_def db3_def)
  have c: "getNoteById db3 3 = Some ?C" by (simp add: getNoteById_def db3_def)
  have d: "distinct [1, 2, 3 :: int]" by simp
  have p: "set (getNotesToSync db3) = {?A, ?B, ?C}"
    by (simp add: getNotesToSync_def order_by_def db3_def)
  have f: "remote_accepts [1, 2] [3] (''http://localhost:3000'' @ ''/api/sync'')
             (syncData (getNotesToSync db3)) = Resolved ?r"
    by (simp add: remote_accepts_def)
  have k: "ok ?r" by simp
  have j: "json ?r = JsonValue (Some [1, 2]) (Some [3])" by simp
  show ?thesis
    using sync_reconciles [where fetch = "remote_accepts [1, 2] [3]"
        and apiUrl = "''http://localhost:3000''" and now = 50, OF wf a b c d p f k j]
    by simp
qed

section \<open>The sync cycle: unreachable remote\<close>



section \<open>Search and the pattern match\<close>

lemma has_prefix_iff: "has_prefix s p \<longleftrightarrow> (\<exists>ys. s = p @ ys)"
  by (induction s p rule: has_prefix.induct) auto

lemma has_infix_iff: "has_infix s sub \<longleftrightarrow> (\<exists>xs ys. s = xs @ sub @ ys)"
proof (induction s)
  case Nil
  then show ?case by auto
next
  case (Cons c cs)
  show ?case
  proof
    assume "has_infix (c # cs) sub"
    then consider "has_prefix (c # cs) sub" | "has_infix cs sub" by auto
    then show "\<exists>xs ys. c # cs = xs @ sub @ ys"
    proof cases
      case 1
      then obtain ys where "c # cs = sub @ ys" by (auto simp: has_prefix_iff)
      then have "c # cs = [] @ sub @ ys" by simp
      then show ?thesis by blast
    next
      case 2
      with Cons obtain xs ys where "cs = xs @ sub @ ys" by blast
      then have "c # cs = (c # xs) @ sub @ ys" by simp
      then show ?thesis by blast
    qed
  next
    assume "\<exists>xs ys. c # cs = xs @ sub @ ys"
    then obtain xs ys where e: "c # cs = xs @ sub @ ys" by blast
    show "has_infix (c # cs) sub"
    proof (cases xs)
      case Nil
      with e have "has_prefix (c # cs) sub" by (auto simp: has_prefix_iff)
      then show ?thesis by simp
    next
      case (Cons x xs')
      with e have "cs = xs' @ sub @ ys" by simp
      with Cons.IH have "has_infix cs sub" by blast
      then show ?thesis by simp
    qed
  qed
qed



















end
